theory Spec2Isabelle
  imports Complex_Main "HOL-Library.AList"
begin

section \<open>Data model of MplCanvas.py\<close>

text \<open>
  The exceptions the modelled code can raise. \<open>KeyError\<close> is what a dictionary lookup with an
  unknown key raises (the specification calls it NotFoundError); \<open>IndexError\<close> is an
  out-of-range positional read; \<open>AttributeError\<close> is the call of a method that the class
  does not define.
\<close>

datatype error = IndexError | KeyError | AttributeError

text \<open>
  A pandas DataFrame: its columns in order, each a label and its values. The code never
  computes with the cell values, so their type is a parameter. Column labels of a DataFrame
  read from a CSV file are pairwise distinct; theorems that depend on it say so.
\<close>

type_synonym 'v table = "(string \<times> 'v list) list"

text \<open>
  What one drawing call leaves on a region: \<open>LinePlot x y label\<close> is
  \<open>ax.plot(x, y, label=label, marker='o')\<close> and \<open>ScatterPlot x y label\<close> is
  \<open>ax.scatter(x, y, label=label, alpha=0.7)\<close>.
\<close>

datatype 'v series = LinePlot "'v list" "'v list" string | ScatterPlot "'v list" "'v list" string

text \<open>\<open>GridSpec(nrows, ncols)\<close> and a cell of it, \<open>SubplotSpec(gridspec, num)\<close>.\<close>

record gridspec =
  nrows :: nat
  ncols :: nat

record subplotspec =
  spec_gs :: gridspec
  num :: nat

text \<open>
  A matplotlib Axes (a region): where it sits, what has been drawn on it, and the formatting
  that \<open>format_plot\<close> sets.
\<close>

record 'v axes =
  subplotspec :: subplotspec
  artists :: "'v series list"
  title :: string
  xlabel :: string
  ylabel :: string
  legend :: bool
  grid :: bool

text \<open>
  Class \<open>DataHolder\<close>. The field \<open>ax\<close> is a reference to an Axes object of the figure; the
  figure never removes an Axes, so the reference is the position of the object in the
  figure's list of axes.
\<close>

record 'v DataHolder =
  holder_ax :: nat
  holder_data :: "'v table"
  holder_paired :: bool
  holder_type :: int

text \<open>
  The redraw requests the canvas issues, in order: \<open>self.fig.tight_layout()\<close>,
  \<open>self.draw()\<close> and \<open>ax.draw()\<close> on the Axes behind a reference.
\<close>

datatype event = TightLayout | CanvasDraw | AxesDraw nat

text \<open>
  Class \<open>MplCanvas\<close>: \<open>fig_axes\<close> is \<open>self.fig.get_axes()\<close> (the store of all Axes objects, in
  creation order), \<open>plots\<close> the insertion-ordered dictionary \<open>self.plots\<close>, \<open>gs\<close> the current
  GridSpec. \<open>self.MAX_COL\<close> is assigned once, in the constructor, and never again.
\<close>

record 'v canvas =
  fig_axes :: "'v axes list"
  plots :: "(string \<times> 'v DataHolder) list"
  gs :: gridspec
  drawn :: "event list"

definition MAX_COL :: nat where
  "MAX_COL = 2"

definition MplCanvas_init :: "'v canvas" where
  "MplCanvas_init = \<lparr>fig_axes = [], plots = [], gs = \<lparr>nrows = 1, ncols = 1\<rparr>, drawn = []\<rparr>"

section \<open>Library operations used by the code\<close>

text \<open>\<open>gs[k]\<close> with an integer key: the cell number \<open>k\<close>, or IndexError.\<close>

definition gs_getitem :: "gridspec \<Rightarrow> nat \<Rightarrow> error + subplotspec" where
  "gs_getitem g k =
     (if k < nrows g * ncols g then Inr \<lparr>spec_gs = g, num = k\<rparr> else Inl IndexError)"

text \<open>\<open>gs[row, col]\<close>: the cell in that row and column, or IndexError.\<close>

definition gs_getitem2 :: "gridspec \<Rightarrow> nat \<Rightarrow> nat \<Rightarrow> error + subplotspec" where
  "gs_getitem2 g row col =
     (if row < nrows g \<and> col < ncols g then Inr \<lparr>spec_gs = g, num = row * ncols g + col\<rparr>
      else Inl IndexError)"

text \<open>Row and column of a cell in its own grid.\<close>

definition spec_row :: "subplotspec \<Rightarrow> nat" where
  "spec_row ss = num ss div ncols (spec_gs ss)"

definition spec_col :: "subplotspec \<Rightarrow> nat" where
  "spec_col ss = num ss mod ncols (spec_gs ss)"

definition cell_of :: "'v axes \<Rightarrow> nat \<times> nat" where
  "cell_of a = (spec_row (subplotspec a), spec_col (subplotspec a))"

definition new_axes :: "subplotspec \<Rightarrow> 'v axes" where
  "new_axes ss = \<lparr>subplotspec = ss, artists = [], title = [], xlabel = [], ylabel = [],
     legend = False, grid = False\<rparr>"

text \<open>
  \<open>fig.add_subplot(spec)\<close>: a new empty Axes at the end of the figure's list; the result is
  the reference to it. Nothing in the code removes an Axes from the figure.
\<close>

definition add_subplot :: "subplotspec \<Rightarrow> 'v canvas \<Rightarrow> nat \<times> 'v canvas" where
  "add_subplot ss s = (length (fig_axes s), s\<lparr>fig_axes := fig_axes s @ [new_axes ss]\<rparr>)"

definition ax_plot :: "'v axes \<Rightarrow> 'v list \<Rightarrow> 'v list \<Rightarrow> string \<Rightarrow> 'v axes" where
  "ax_plot a x y l = a\<lparr>artists := artists a @ [LinePlot x y l]\<rparr>"

definition ax_scatter :: "'v axes \<Rightarrow> 'v list \<Rightarrow> 'v list \<Rightarrow> string \<Rightarrow> 'v axes" where
  "ax_scatter a x y l = a\<lparr>artists := artists a @ [ScatterPlot x y l]\<rparr>"

text \<open>\<open>ax.cla()\<close>: everything on the region is reset, its place in the grid stays.\<close>

definition cla :: "'v axes \<Rightarrow> 'v axes" where
  "cla a = new_axes (subplotspec a)"

text \<open>\<open>df.columns[i]\<close> and \<open>df[label]\<close>.\<close>

definition columns_getitem :: "'v table \<Rightarrow> nat \<Rightarrow> error + string" where
  "columns_getitem df i = (if i < length df then Inr (fst (df ! i)) else Inl IndexError)"

definition df_getitem :: "'v table \<Rightarrow> string \<Rightarrow> error + 'v list" where
  "df_getitem df c = (case map_of df c of None \<Rightarrow> Inl KeyError | Some v \<Rightarrow> Inr v)"

text \<open>\<open>range(start, stop, step)\<close> for a positive step.\<close>

definition py_range :: "nat \<Rightarrow> nat \<Rightarrow> nat \<Rightarrow> nat list" where
  "py_range start stop step =
     map (\<lambda>k. start + k * step) [0 ..< (stop - start + step - 1) div step]"

section \<open>The functions of MplCanvas.py\<close>

subsection \<open>detect_adjacent_pairs\<close>

text \<open>The list comprehension \<open>[(df.columns[i], df.columns[i + 1]) for i in ...]\<close>.\<close>

fun adjacent_pairs_at :: "'v table \<Rightarrow> nat list \<Rightarrow> error + (string \<times> string) list" where
  "adjacent_pairs_at df [] = Inr []"
| "adjacent_pairs_at df (i # is) =
     (case columns_getitem df i of
        Inl e \<Rightarrow> Inl e
      | Inr x \<Rightarrow>
          (case columns_getitem df (i + 1) of
             Inl e \<Rightarrow> Inl e
           | Inr y \<Rightarrow>
               (case adjacent_pairs_at df is of
                  Inl e \<Rightarrow> Inl e
                | Inr pairs \<Rightarrow> Inr ((x, y) # pairs))))"

definition detect_adjacent_pairs :: "'v table \<Rightarrow> error + (string \<times> string) list" where
  "detect_adjacent_pairs df = adjacent_pairs_at df (py_range 0 (length df) 2)"

subsection \<open>format_plot\<close>

definition format_plot :: "'v axes \<Rightarrow> string \<Rightarrow> 'v axes" where
  "format_plot a name =
     a\<lparr>title := name, xlabel := ''X-axis'', ylabel := ''Y-axis'', legend := True, grid := True\<rparr>"

subsection \<open>__plot_paired\<close>

text \<open>The loop \<open>for x, y in pairs\<close>; an exception leaves what was drawn so far.\<close>

fun plot_paired_loop ::
  "(string \<times> string) list \<Rightarrow> 'v table \<Rightarrow> int \<Rightarrow> 'v axes \<Rightarrow> (error + unit) \<times> 'v axes" where
  "plot_paired_loop [] data type a = (Inr (), a)"
| "plot_paired_loop ((x, y) # pairs) data type a =
     (if type = 0 \<or> type = 1 then
        (case df_getitem data x of
           Inl e \<Rightarrow> (Inl e, a)
         | Inr xv \<Rightarrow>
             (case df_getitem data y of
                Inl e \<Rightarrow> (Inl e, a)
              | Inr yv \<Rightarrow>
                  plot_paired_loop pairs data type
                    (if type = 0 then ax_plot a xv yv (x @ '' vs '' @ y)
                     else ax_scatter a xv yv (x @ '' vs '' @ y))))
      else plot_paired_loop pairs data type a)"

definition plot_paired :: "'v axes \<Rightarrow> 'v table \<Rightarrow> int \<Rightarrow> (error + unit) \<times> 'v axes" where
  "plot_paired a data type =
     (case detect_adjacent_pairs data of
        Inl e \<Rightarrow> (Inl e, a)
      | Inr pairs \<Rightarrow> plot_paired_loop pairs data type a)"

subsection \<open>__plot_unpaired\<close>

text \<open>The loop \<open>for y in data.columns[1:]\<close>.\<close>

fun plot_unpaired_loop ::
  "string list \<Rightarrow> string \<Rightarrow> 'v list \<Rightarrow> 'v table \<Rightarrow> int \<Rightarrow> 'v axes \<Rightarrow> (error + unit) \<times> 'v axes" where
  "plot_unpaired_loop [] x_col x data type a = (Inr (), a)"
| "plot_unpaired_loop (y # ys) x_col x data type a =
     (if type = 0 \<or> type = 1 then
        (case df_getitem data y of
           Inl e \<Rightarrow> (Inl e, a)
         | Inr yv \<Rightarrow>
             plot_unpaired_loop ys x_col x data type
               (if type = 0 then ax_plot a x yv (x_col @ '' vs '' @ y)
                else ax_scatter a x yv (x_col @ '' vs '' @ y)))
      else plot_unpaired_loop ys x_col x data type a)"

definition plot_unpaired :: "'v axes \<Rightarrow> 'v table \<Rightarrow> int \<Rightarrow> (error + unit) \<times> 'v axes" where
  "plot_unpaired a data type =
     (case columns_getitem data 0 of
        Inl e \<Rightarrow> (Inl e, a)
      | Inr x_col \<Rightarrow>
          (case df_getitem data x_col of
             Inl e \<Rightarrow> (Inl e, a)
           | Inr x \<Rightarrow> plot_unpaired_loop (drop 1 (map fst data)) x_col x data type a))"

subsection \<open>__adjust_figure\<close>

text \<open>
  The loop \<open>for i, ax in enumerate(existing_axes)\<close>: each Axes object is moved in place to
  the cell \<open>divmod(i, ncols)\<close> of the new grid. \<open>ncols\<close> is the minimum of \<open>MAX_COL\<close> and a
  positive count, so it is never 0 and neither the division nor the GridSpec constructor
  can fail.
\<close>

fun reposition :: "gridspec \<Rightarrow> nat \<Rightarrow> 'v axes list \<Rightarrow> (error + unit) \<times> 'v axes list" where
  "reposition new_gs i [] = (Inr (), [])"
| "reposition new_gs i (a # as) =
     (case gs_getitem2 new_gs (i div ncols new_gs) (i mod ncols new_gs) of
        Inl e \<Rightarrow> (Inl e, a # as)
      | Inr ss \<Rightarrow>
          (case reposition new_gs (Suc i) as of
             (r, as') \<Rightarrow> (r, a\<lparr>subplotspec := ss\<rparr> # as')))"

definition adjust_figure :: "'v canvas \<Rightarrow> (error + gridspec \<times> nat) \<times> 'v canvas" where
  "adjust_figure s =
     (let existing_axes = fig_axes s;
          total_plots = length existing_axes + 1;
          n_cols = min MAX_COL total_plots;
          n_rows = (total_plots + n_cols - 1) div n_cols;
          new_gs = \<lparr>nrows = n_rows, ncols = n_cols\<rparr>
      in case reposition new_gs 0 existing_axes of
           (Inl e, axs) \<Rightarrow> (Inl e, s\<lparr>fig_axes := axs\<rparr>)
         | (Inr u, axs) \<Rightarrow>
             (case gs_getitem new_gs (length existing_axes) of
                Inl e \<Rightarrow> (Inl e, s\<lparr>fig_axes := axs\<rparr>)
              | Inr ss \<Rightarrow>
                  (case add_subplot ss (s\<lparr>fig_axes := axs\<rparr>) of
                     (new_ax, s') \<Rightarrow> (Inr (new_gs, new_ax), s'\<lparr>gs := new_gs\<rparr>))))"

subsection \<open>add_plot\<close>

text \<open>Lines 79 to 85: the Axes for the new plot, in the current grid or in a larger one.\<close>

definition add_plot_new_ax :: "'v canvas \<Rightarrow> (error + nat) \<times> 'v canvas" where
  "add_plot_new_ax s =
     (if ncols (gs s) * nrows (gs s) \<ge> length (plots s) + 1 then
        (case gs_getitem (gs s) (length (plots s)) of
           Inl e \<Rightarrow> (Inl e, s)
         | Inr ss \<Rightarrow> (case add_subplot ss s of (new_ax, s') \<Rightarrow> (Inr new_ax, s')))
      else
        (case adjust_figure s of
           (Inl e, s') \<Rightarrow> (Inl e, s')
         | (Inr (new_gs, new_ax), s') \<Rightarrow> (Inr new_ax, s'\<lparr>gs := new_gs\<rparr>)))"

text \<open>A method that draws on the Axes object behind a reference.\<close>

definition on_axes ::
  "nat \<Rightarrow> ('v axes \<Rightarrow> (error + unit) \<times> 'v axes) \<Rightarrow> 'v canvas \<Rightarrow> (error + unit) \<times> 'v canvas" where
  "on_axes i f s =
     (case f (fig_axes s ! i) of (r, a') \<Rightarrow> (r, s\<lparr>fig_axes := (fig_axes s)[i := a']\<rparr>))"

definition add_plot ::
  "string \<Rightarrow> 'v table \<Rightarrow> bool \<Rightarrow> int \<Rightarrow> 'v canvas \<Rightarrow> (error + unit) \<times> 'v canvas" where
  "add_plot plot_name data paired type s =
     (case add_plot_new_ax s of
        (Inl e, s1) \<Rightarrow> (Inl e, s1)
      | (Inr new_ax, s1) \<Rightarrow>
          (case on_axes new_ax
                  (\<lambda>a. if paired then plot_paired a data type else plot_unpaired a data type) s1 of
             (Inl e, s2) \<Rightarrow> (Inl e, s2)
           | (Inr u, s2) \<Rightarrow>
               (Inr (),
                s2\<lparr>fig_axes := (fig_axes s2)[new_ax := format_plot (fig_axes s2 ! new_ax) plot_name],
                   drawn := drawn s2 @ [TightLayout, CanvasDraw],
                   plots := AList.update plot_name
                     \<lparr>holder_ax = new_ax, holder_data = data, holder_paired = paired,
                      holder_type = type\<rparr> (plots s2)\<rparr>)))"

subsection \<open>get_ax and update_plot\<close>

definition get_ax :: "string \<Rightarrow> 'v canvas \<Rightarrow> (error + nat) \<times> 'v canvas" where
  "get_ax name s =
     (case map_of (plots s) name of
        None \<Rightarrow> (Inl KeyError, s)
      | Some h \<Rightarrow> (Inr (holder_ax h), s))"

text \<open>
  The unpaired branch of \<open>update_plot\<close> calls \<open>self.__plot_series\<close>, a method the class does
  not have: the attribute lookup raises, after the region has been cleared. The final
  \<open>ax.draw()\<close> is recorded as a redraw request for that one region; what the installed
  matplotlib does with a call that passes no renderer is not part of the model.
\<close>

definition update_plot :: "string \<Rightarrow> 'v table \<Rightarrow> 'v canvas \<Rightarrow> (error + unit) \<times> 'v canvas" where
  "update_plot plot_name data s =
     (case map_of (plots s) plot_name of
        None \<Rightarrow> (Inl KeyError, s)
      | Some h \<Rightarrow>
          (let s1 = s\<lparr>fig_axes := (fig_axes s)[holder_ax h := cla (fig_axes s ! holder_ax h)]\<rparr>
           in if holder_paired h then
                (case on_axes (holder_ax h) (\<lambda>a. plot_paired a data (holder_type h)) s1 of
                   (Inl e, s2) \<Rightarrow> (Inl e, s2)
                 | (Inr u, s2) \<Rightarrow>
                     (Inr (),
                      s2\<lparr>fig_axes := (fig_axes s2)[holder_ax h :=
                              format_plot (fig_axes s2 ! holder_ax h) plot_name],
                         drawn := drawn s2 @ [AxesDraw (holder_ax h)]\<rparr>))
              else (Inl AttributeError, s1)))"

section \<open>Sequences of calls\<close>

text \<open>
  A caller that issues one \<open>add_plot\<close> after the other: an exception ends the sequence, as
  it ends the Python statement list.
\<close>

type_synonym 'v call = "string \<times> 'v table \<times> bool \<times> int"

fun add_plots :: "'v call list \<Rightarrow> 'v canvas \<Rightarrow> (error + unit) \<times> 'v canvas" where
  "add_plots [] s = (Inr (), s)"
| "add_plots ((plot_name, data, paired, type) # cs) s =
     (case add_plot plot_name data paired type s of
        (Inl e, s') \<Rightarrow> (Inl e, s')
      | (Inr u, s') \<Rightarrow> add_plots cs s')"

text \<open>
  The tables on which the rendering step of \<open>add_plot\<close> does not raise: an even number of
  columns in paired mode, at least one column in unpaired mode.
\<close>

definition renderable :: "bool \<Rightarrow> 'v table \<Rightarrow> bool" where
  "renderable paired data = (if paired then even (length data) else data \<noteq> [])"

text \<open>The drawing call that the two style branches make: \<open>ax.plot\<close> for 0, \<open>ax.scatter\<close> for 1.\<close>

definition series_of :: "int \<Rightarrow> 'v list \<Rightarrow> 'v list \<Rightarrow> string \<Rightarrow> 'v series" where
  "series_of type x y l = (if type = 0 then LinePlot x y l else ScatterPlot x y l)"

text \<open>The grid that lines 129 to 133 of \<open>__adjust_figure\<close> compute for \<open>total_plots\<close>.\<close>

definition grid_for :: "nat \<Rightarrow> gridspec" where
  "grid_for total_plots =
     \<lparr>nrows = (total_plots + min MAX_COL total_plots - 1) div min MAX_COL total_plots,
      ncols = min MAX_COL total_plots\<rparr>"

text \<open>
  The state after plots with the given pairwise distinct names have been added to a new
  canvas, each call returning normally: the keys of \<open>plots\<close> are the names in order, the
  slot at position i refers to region i, region i sits in cell number i of the current
  grid, and the grid is the initial 1 x 1 one or the one \<open>__adjust_figure\<close> computes for
  that many plots.
\<close>

definition laid_out :: "string list \<Rightarrow> 'v canvas \<Rightarrow> bool" where
  "laid_out names s =
     (map fst (plots s) = names
      \<and> map (\<lambda>p. holder_ax (snd p)) (plots s) = [0 ..< length names]
      \<and> map subplotspec (fig_axes s) = map (\<lambda>k. \<lparr>spec_gs = gs s, num = k\<rparr>) [0 ..< length names]
      \<and> gs s = (if names = [] then \<lparr>nrows = 1, ncols = 1\<rparr> else grid_for (length names)))"

section \<open>Properties of the rendering functions\<close>

lemma py_range_by_two: "py_range 0 n 2 = map (\<lambda>k. 2 * k) [0 ..< (n + 1) div 2]"
  by (simp add: py_range_def mult.commute)

lemma adjacent_pairs_at_in_range:
  "list_all (\<lambda>i. Suc i < length df) is \<Longrightarrow>
     adjacent_pairs_at df is = Inr (map (\<lambda>i. (fst (df ! i), fst (df ! Suc i))) is)"
  by (induction "is") (simp_all add: columns_getitem_def)

lemma adjacent_pairs_at_out_of_range:
  "\<not> list_all (\<lambda>i. Suc i < length df) is \<Longrightarrow> adjacent_pairs_at df is = Inl IndexError"
proof (induction "is")
  case Nil
  then show ?case by simp
next
  case (Cons i "is")
  show ?case
  proof (cases "Suc i < length df")
    case False
    then show ?thesis by (simp add: columns_getitem_def)
  next
    case True
    with Cons.prems have "\<not> list_all (\<lambda>i. Suc i < length df) is" by simp
    then have "adjacent_pairs_at df is = Inl IndexError" by (rule Cons.IH)
    with True show ?thesis by (simp add: columns_getitem_def)
  qed
qed

lemma detect_adjacent_pairs_even:
  assumes "even (length df)"
  shows "detect_adjacent_pairs df =
           Inr (map (\<lambda>k. (fst (df ! (2 * k)), fst (df ! Suc (2 * k)))) [0 ..< length df div 2])"
proof -
  from assms obtain m where m: "length df = 2 * m" by (auto elim: evenE)
  have "list_all (\<lambda>i. Suc i < length df) (map (\<lambda>k. 2 * k) [0 ..< m])"
    using m by (simp add: list_all_iff)
  then have "adjacent_pairs_at df (map (\<lambda>k. 2 * k) [0 ..< m]) =
      Inr (map (\<lambda>i. (fst (df ! i), fst (df ! Suc i))) (map (\<lambda>k. 2 * k) [0 ..< m]))"
    by (rule adjacent_pairs_at_in_range)
  then show ?thesis
    using m by (simp add: detect_adjacent_pairs_def py_range_by_two comp_def)
qed

lemma detect_adjacent_pairs_odd:
  assumes "odd (length df)"
  shows "detect_adjacent_pairs df = Inl IndexError"
proof -
  from assms obtain m where m: "length df = Suc (2 * m)" by (auto elim: oddE)
  have "\<not> list_all (\<lambda>i. Suc i < length df) (map (\<lambda>k. 2 * k) [0 ..< Suc m])"
    using m by (simp add: list_all_iff)
  then have "adjacent_pairs_at df (map (\<lambda>k. 2 * k) [0 ..< Suc m]) = Inl IndexError"
    by (rule adjacent_pairs_at_out_of_range)
  then show ?thesis
    using m by (simp add: detect_adjacent_pairs_def py_range_by_two)
qed

lemma plot_paired_loop_other_type:
  "type \<noteq> 0 \<Longrightarrow> type \<noteq> 1 \<Longrightarrow> plot_paired_loop pairs data type a = (Inr (), a)"
  by (induction pairs) auto

lemma plot_unpaired_loop_other_type:
  "type \<noteq> 0 \<Longrightarrow> type \<noteq> 1 \<Longrightarrow> plot_unpaired_loop ys x_col x data type a = (Inr (), a)"
  by (induction ys) auto

lemma df_getitem_column:
  "distinct (map fst data) \<Longrightarrow> i < length data \<Longrightarrow> df_getitem data (fst (data ! i)) = Inr (snd (data ! i))"
proof -
  assume d: "distinct (map fst data)" and i: "i < length data"
  from i have "(fst (data ! i), snd (data ! i)) \<in> set data" by simp
  with d have "map_of data (fst (data ! i)) = Some (snd (data ! i))"
    by (rule map_of_is_SomeI)
  then show ?thesis by (simp add: df_getitem_def)
qed

lemma map_of_label:
  "x \<in> fst ` set data \<Longrightarrow> \<exists>v. map_of data x = Some v"
  by (cases "map_of data x") (auto simp: map_of_eq_None_iff)

lemma plot_paired_loop_draws:
  assumes "type = 0 \<or> type = 1"
    and "list_all (\<lambda>(x, y). x \<in> fst ` set data \<and> y \<in> fst ` set data) pairs"
  shows "plot_paired_loop pairs data type a =
     (Inr (), a\<lparr>artists := artists a @
        map (\<lambda>(x, y). series_of type (the (map_of data x)) (the (map_of data y)) (x @ '' vs '' @ y)) pairs\<rparr>)"
  using assms(2)
proof (induction pairs arbitrary: a)
  case Nil
  then show ?case by simp
next
  case (Cons p pairs)
  obtain x y where p: "p = (x, y)" by (cases p)
  from Cons.prems p have "x \<in> fst ` set data" and "y \<in> fst ` set data" by simp_all
  then obtain xv yv where xv: "map_of data x = Some xv" and yv: "map_of data y = Some yv"
    using map_of_label by meson
  from Cons.prems have rest: "list_all (\<lambda>(x, y). x \<in> fst ` set data \<and> y \<in> fst ` set data) pairs"
    by simp
  show ?case
    using assms(1) xv yv
    by (auto simp: p df_getitem_def Cons.IH [OF rest] ax_plot_def ax_scatter_def series_of_def)
qed

lemma plot_unpaired_loop_draws:
  assumes "type = 0 \<or> type = 1"
    and "set ys \<subseteq> fst ` set data"
  shows "plot_unpaired_loop ys x_col x data type a =
     (Inr (), a\<lparr>artists := artists a @
        map (\<lambda>y. series_of type x (the (map_of data y)) (x_col @ '' vs '' @ y)) ys\<rparr>)"
  using assms(2)
proof (induction ys arbitrary: a)
  case Nil
  then show ?case by simp
next
  case (Cons y ys)
  from Cons.prems have "y \<in> fst ` set data" by simp
  then obtain yv where yv: "map_of data y = Some yv"
    using map_of_label by meson
  from Cons.prems have rest: "set ys \<subseteq> fst ` set data" by simp
  show ?case
    using assms(1) yv
    by (auto simp: df_getitem_def Cons.IH [OF rest] ax_plot_def ax_scatter_def series_of_def)
qed

subsection \<open>When rendering returns, and what it leaves alone\<close>

lemma plot_paired_loop_returns:
  "list_all (\<lambda>(x, y). x \<in> fst ` set data \<and> y \<in> fst ` set data) pairs \<Longrightarrow>
     fst (plot_paired_loop pairs data type a) = Inr ()"
  by (cases "type = 0 \<or> type = 1")
     (simp_all add: plot_paired_loop_draws plot_paired_loop_other_type)

lemma plot_unpaired_loop_returns:
  "set ys \<subseteq> fst ` set data \<Longrightarrow> fst (plot_unpaired_loop ys x_col x data type a) = Inr ()"
  by (cases "type = 0 \<or> type = 1")
     (simp_all add: plot_unpaired_loop_draws plot_unpaired_loop_other_type)

lemma plot_paired_returns_iff:
  "fst (plot_paired a data type) = (if even (length data) then Inr () else Inl IndexError)"
proof (cases "even (length data)")
  case True
  have "list_all (\<lambda>(x, y). x \<in> fst ` set data \<and> y \<in> fst ` set data)
          (map (\<lambda>k. (fst (data ! (2 * k)), fst (data ! Suc (2 * k)))) [0 ..< length data div 2])"
    using True by (auto simp: list_all_iff elim!: evenE)
  then show ?thesis
    using True by (simp add: plot_paired_def detect_adjacent_pairs_even plot_paired_loop_returns)
next
  case False
  then show ?thesis by (simp add: plot_paired_def detect_adjacent_pairs_odd)
qed

lemma plot_unpaired_returns_iff:
  "fst (plot_unpaired a data type) = (if data \<noteq> [] then Inr () else Inl IndexError)"
proof (cases data)
  case Nil
  then show ?thesis by (simp add: plot_unpaired_def columns_getitem_def)
next
  case (Cons c cs)
  obtain l v where c: "c = (l, v)" by (cases c)
  have "set (map fst cs) \<subseteq> fst ` set data" using Cons by auto
  then have "fst (plot_unpaired_loop (map fst cs) l v data type a) = Inr ()"
    by (rule plot_unpaired_loop_returns)
  then show ?thesis
    using Cons c by (simp add: plot_unpaired_def columns_getitem_def df_getitem_def)
qed

lemma plot_paired_loop_frame:
  "subplotspec (snd (plot_paired_loop pairs data type a)) = subplotspec a"
  by (induction pairs data type a rule: plot_paired_loop.induct)
     (auto simp: ax_plot_def ax_scatter_def split: sum.splits)

lemma plot_unpaired_loop_frame:
  "subplotspec (snd (plot_unpaired_loop ys x_col x data type a)) = subplotspec a"
  by (induction ys x_col x data type a rule: plot_unpaired_loop.induct)
     (auto simp: ax_plot_def ax_scatter_def split: sum.splits)

lemma plot_paired_frame: "subplotspec (snd (plot_paired a data type)) = subplotspec a"
  by (simp add: plot_paired_def plot_paired_loop_frame split: sum.splits)

lemma plot_unpaired_frame: "subplotspec (snd (plot_unpaired a data type)) = subplotspec a"
  by (simp add: plot_unpaired_def plot_unpaired_loop_frame split: sum.splits)

subsection \<open>The new region\<close>

lemma reposition_in_range:
  "0 < ncols g \<Longrightarrow> (i + length as - 1) div ncols g < nrows g \<Longrightarrow>
     reposition g i as =
       (Inr (), map (\<lambda>(k, a). a\<lparr>subplotspec := \<lparr>spec_gs = g, num = k\<rparr>\<rparr>) (enumerate i as))"
proof (induction as arbitrary: i)
  case Nil
  then show ?case by simp
next
  case (Cons a as)
  have "i div ncols g \<le> (i + length (a # as) - 1) div ncols g"
    by (rule div_le_mono) simp
  with Cons.prems have row: "i div ncols g < nrows g" by simp
  from Cons.prems have col: "i mod ncols g < ncols g" by simp
  have "as = [] \<or> (Suc i + length as - 1) div ncols g < nrows g"
    using Cons.prems by (cases as) simp_all
  then have "reposition g (Suc i) as =
       (Inr (), map (\<lambda>(k, a). a\<lparr>subplotspec := \<lparr>spec_gs = g, num = k\<rparr>\<rparr>) (enumerate (Suc i) as))"
    using Cons.IH [OF Cons.prems(1)] by auto
  then show ?case
    using row col by (simp add: gs_getitem2_def)
qed

lemma grid_for_ncols_pos: "0 < ncols (grid_for (Suc n))"
  by (simp add: grid_for_def MAX_COL_def)

lemma grid_for_rows: "(n - 1) div ncols (grid_for (Suc n)) < nrows (grid_for (Suc n))"
proof -
  have "min MAX_COL (Suc n) = 1 \<or> min MAX_COL (Suc n) = 2"
    by (auto simp: MAX_COL_def min_def)
  then show ?thesis
    by (auto simp: grid_for_def)
qed

lemma grid_for_capacity: "n < nrows (grid_for (Suc n)) * ncols (grid_for (Suc n))"
proof -
  have "min MAX_COL (Suc n) = 1 \<or> min MAX_COL (Suc n) = 2"
    by (auto simp: MAX_COL_def min_def)
  then show ?thesis
    by (auto simp: grid_for_def)
qed

lemma adjust_figure_eq:
  "adjust_figure s =
     (Inr (grid_for (Suc (length (fig_axes s))), length (fig_axes s)),
      s\<lparr>fig_axes :=
           map (\<lambda>(k, a). a\<lparr>subplotspec := \<lparr>spec_gs = grid_for (Suc (length (fig_axes s))), num = k\<rparr>\<rparr>)
             (enumerate 0 (fig_axes s))
           @ [new_axes \<lparr>spec_gs = grid_for (Suc (length (fig_axes s))), num = length (fig_axes s)\<rparr>],
         gs := grid_for (Suc (length (fig_axes s)))\<rparr>)"
proof -
  let ?n = "length (fig_axes s)"
  let ?g = "grid_for (Suc ?n)"
  have g: "\<lparr>nrows = (?n + 1 + min MAX_COL (?n + 1) - 1) div min MAX_COL (?n + 1),
            ncols = min MAX_COL (?n + 1)\<rparr> = ?g"
    by (simp add: grid_for_def)
  have "(0 + length (fig_axes s) - 1) div ncols ?g < nrows ?g"
    using grid_for_rows [of ?n] by simp
  then have r: "reposition ?g 0 (fig_axes s) =
      (Inr (), map (\<lambda>(k, a). a\<lparr>subplotspec := \<lparr>spec_gs = ?g, num = k\<rparr>\<rparr>) (enumerate 0 (fig_axes s)))"
    by (rule reposition_in_range [OF grid_for_ncols_pos])
  have c: "gs_getitem ?g ?n = Inr \<lparr>spec_gs = ?g, num = ?n\<rparr>"
    using grid_for_capacity [of ?n] by (simp add: gs_getitem_def)
  show ?thesis
    unfolding adjust_figure_def Let_def g
    by (simp add: r c add_subplot_def)
qed

lemma add_plot_new_ax_reuse:
  "length (plots s) + 1 \<le> ncols (gs s) * nrows (gs s) \<Longrightarrow>
     add_plot_new_ax s =
       (Inr (length (fig_axes s)),
        s\<lparr>fig_axes := fig_axes s @ [new_axes \<lparr>spec_gs = gs s, num = length (plots s)\<rparr>]\<rparr>)"
  by (simp add: add_plot_new_ax_def gs_getitem_def add_subplot_def mult.commute)

lemma add_plot_new_ax_grow:
  "\<not> length (plots s) + 1 \<le> ncols (gs s) * nrows (gs s) \<Longrightarrow>
     add_plot_new_ax s =
       (Inr (length (fig_axes s)),
        s\<lparr>fig_axes :=
           map (\<lambda>(k, a). a\<lparr>subplotspec := \<lparr>spec_gs = grid_for (Suc (length (fig_axes s))), num = k\<rparr>\<rparr>)
             (enumerate 0 (fig_axes s))
           @ [new_axes \<lparr>spec_gs = grid_for (Suc (length (fig_axes s))), num = length (fig_axes s)\<rparr>],
         gs := grid_for (Suc (length (fig_axes s)))\<rparr>)"
  by (simp add: add_plot_new_ax_def adjust_figure_eq)

lemma add_plot_new_ax_facts:
  "fst (add_plot_new_ax s) = Inr (length (fig_axes s))"
  "length (fig_axes (snd (add_plot_new_ax s))) = Suc (length (fig_axes s))"
  "plots (snd (add_plot_new_ax s)) = plots s"
  "drawn (snd (add_plot_new_ax s)) = drawn s"
  "artists (fig_axes (snd (add_plot_new_ax s)) ! length (fig_axes s)) = []"
  by (cases "length (plots s) + 1 \<le> ncols (gs s) * nrows (gs s)";
      simp add: add_plot_new_ax_reuse add_plot_new_ax_grow new_axes_def nth_append)+

subsection \<open>add_plot as one equation\<close>

lemma on_axes_eq:
  "on_axes i f s = (fst (f (fig_axes s ! i)), s\<lparr>fig_axes := (fig_axes s)[i := snd (f (fig_axes s ! i))]\<rparr>)"
  by (simp add: on_axes_def split: prod.splits)

lemma render_returns_iff:
  "fst (if paired then plot_paired a data type else plot_unpaired a data type) =
     (if renderable paired data then Inr () else Inl IndexError)"
  by (simp add: renderable_def plot_paired_returns_iff plot_unpaired_returns_iff)

lemma add_plot_returns:
  assumes "renderable paired data"
  shows "add_plot plot_name data paired type s =
     (Inr (),
      (snd (add_plot_new_ax s))
        \<lparr>fig_axes := (fig_axes (snd (add_plot_new_ax s)))[length (fig_axes s) :=
             format_plot
               (snd (if paired
                     then plot_paired (fig_axes (snd (add_plot_new_ax s)) ! length (fig_axes s)) data type
                     else plot_unpaired (fig_axes (snd (add_plot_new_ax s)) ! length (fig_axes s)) data type))
               plot_name],
         drawn := drawn s @ [TightLayout, CanvasDraw],
         plots := AList.update plot_name
           \<lparr>holder_ax = length (fig_axes s), holder_data = data, holder_paired = paired,
            holder_type = type\<rparr> (plots s)\<rparr>)"
proof -
  obtain s1 where s1: "add_plot_new_ax s = (Inr (length (fig_axes s)), s1)"
    using add_plot_new_ax_facts(1) [of s] by (cases "add_plot_new_ax s") simp
  have p: "plots s1 = plots s" and d: "drawn s1 = drawn s"
    using add_plot_new_ax_facts(3,4) [of s] s1 by simp_all
  have len: "length (fig_axes s) < length (fig_axes s1)"
    using add_plot_new_ax_facts(2) [of s] s1 by simp
  have r: "fst (if paired then plot_paired (fig_axes s1 ! length (fig_axes s)) data type
                else plot_unpaired (fig_axes s1 ! length (fig_axes s)) data type) = Inr ()"
    using assms by (simp only: render_returns_iff if_True)
  show ?thesis
    unfolding add_plot_def s1
    using r len by (simp add: on_axes_eq p d if_distrib [of fst] if_distrib [of snd] split: sum.splits)
qed

lemma add_plot_raises:
  assumes "\<not> renderable paired data"
  shows "add_plot plot_name data paired type s =
     (Inl IndexError,
      (snd (add_plot_new_ax s))
        \<lparr>fig_axes := (fig_axes (snd (add_plot_new_ax s)))[length (fig_axes s) :=
               snd (if paired
                     then plot_paired (fig_axes (snd (add_plot_new_ax s)) ! length (fig_axes s)) data type
                     else plot_unpaired (fig_axes (snd (add_plot_new_ax s)) ! length (fig_axes s)) data type)]\<rparr>)"
proof -
  obtain s1 where s1: "add_plot_new_ax s = (Inr (length (fig_axes s)), s1)"
    using add_plot_new_ax_facts(1) [of s] by (cases "add_plot_new_ax s") simp
  have r: "fst (if paired then plot_paired (fig_axes s1 ! length (fig_axes s)) data type
                else plot_unpaired (fig_axes s1 ! length (fig_axes s)) data type) = Inl IndexError"
    using assms by (simp only: render_returns_iff if_False)
  show ?thesis
    unfolding add_plot_def s1
    using r by (simp add: on_axes_eq if_distrib [of fst] if_distrib [of snd] split: sum.splits)
qed

section \<open>The layout invariant\<close>

lemma laid_out_init: "laid_out [] MplCanvas_init"
  by (simp add: laid_out_def MplCanvas_init_def)

lemma grid_for_reuse:
  assumes "n + 1 \<le> ncols g * nrows g"
    and "g = (if n = 0 then \<lparr>nrows = 1, ncols = 1\<rparr> else grid_for n)"
  shows "g = grid_for (Suc n)"
proof -
  consider "n = 0" | "n = 1" | "2 \<le> n" by linarith
  then show ?thesis
  proof cases
    case 1
    with assms(2) show ?thesis by (simp add: grid_for_def MAX_COL_def)
  next
    case 2
    with assms show ?thesis by (simp add: grid_for_def MAX_COL_def)
  next
    case 3
    then have m: "min MAX_COL n = 2" "min MAX_COL (Suc n) = 2" by (simp_all add: MAX_COL_def)
    from 3 assms(2) have g: "g = \<lparr>nrows = (n + 1) div 2, ncols = 2\<rparr>"
      by (simp add: grid_for_def m)
    with assms(1) have "n + 1 \<le> 2 * ((n + 1) div 2)" by simp
    then have "(n + 1) div 2 = (n + 2) div 2" by presburger
    then show ?thesis by (simp add: g grid_for_def m)
  qed
qed

lemma update_new_key:
  "k \<notin> fst ` set al \<Longrightarrow> AList.update k v al = al @ [(k, v)]"
  by (induction al) auto

lemma map_subplotspec_enumerate:
  "map (subplotspec \<circ> (\<lambda>(k, a). a\<lparr>subplotspec := f k\<rparr>)) (enumerate i xs) = map f [i ..< i + length xs]"
proof -
  have "map (subplotspec \<circ> (\<lambda>(k, a). a\<lparr>subplotspec := f k\<rparr>)) (enumerate i xs)
      = map f (map fst (enumerate i xs))"
    unfolding map_map by (rule map_cong) (simp_all add: case_prod_beta)
  then show ?thesis by (simp only: map_fst_enumerate)
qed

lemma add_plot_subplotspecs:
  "map subplotspec (fig_axes (snd (add_plot plot_name data paired type s))) =
     map subplotspec (fig_axes (snd (add_plot_new_ax s)))"
proof -
  let ?s1 = "snd (add_plot_new_ax s)"
  let ?n = "length (fig_axes s)"
  have keep: "(map subplotspec (fig_axes ?s1))[?n := subplotspec (fig_axes ?s1 ! ?n)]
      = map subplotspec (fig_axes ?s1)"
    by (simp flip: map_update)
  have frame: "subplotspec (snd (if paired then plot_paired b data type else plot_unpaired b data type))
      = subplotspec b" for b
    by (simp add: plot_paired_frame plot_unpaired_frame)
  show ?thesis
  proof (cases "renderable paired data")
    case True
    then show ?thesis
      using keep by (simp add: add_plot_returns map_update frame format_plot_def)
  next
    case False
    then show ?thesis
      using keep by (simp add: add_plot_raises map_update frame)
  qed
qed

lemma add_plot_gs:
  "gs (snd (add_plot plot_name data paired type s)) = gs (snd (add_plot_new_ax s))"
  by (cases "renderable paired data") (simp_all add: add_plot_returns add_plot_raises)

lemma add_plot_returns_renderable:
  "fst (add_plot plot_name data paired type s) = Inr () \<Longrightarrow> renderable paired data"
  by (rule ccontr) (simp add: add_plot_raises)

lemma laid_out_add_plot:
  assumes inv: "laid_out names s"
    and new: "plot_name \<notin> set names"
    and ret: "add_plot plot_name data paired type s = (Inr (), s')"
  shows "laid_out (names @ [plot_name]) s'"
proof -
  let ?n = "length names"
  from inv have keys: "map fst (plots s) = names"
    and refs: "map (\<lambda>p. holder_ax (snd p)) (plots s) = [0 ..< ?n]"
    and cells: "map subplotspec (fig_axes s) = map (\<lambda>k. \<lparr>spec_gs = gs s, num = k\<rparr>) [0 ..< ?n]"
    and grid: "gs s = (if names = [] then \<lparr>nrows = 1, ncols = 1\<rparr> else grid_for ?n)"
    by (simp_all add: laid_out_def)
  from keys have np: "length (plots s) = ?n" by (metis length_map)
  from cells have na: "length (fig_axes s) = ?n" by (metis length_map length_upt minus_nat.diff_0)
  from ret have r: "renderable paired data"
    by (intro add_plot_returns_renderable [of plot_name data paired type s]) simp
  from ret have s': "s' = snd (add_plot plot_name data paired type s)" by simp
  from new keys have fresh: "plot_name \<notin> fst ` set (plots s)" by (metis set_map)
  have p: "plots s' = plots s @ [(plot_name,
      \<lparr>holder_ax = ?n, holder_data = data, holder_paired = paired, holder_type = type\<rparr>)]"
    unfolding s' by (simp add: add_plot_returns [OF r] update_new_key [OF fresh] na)
  have c: "map subplotspec (fig_axes s') = map subplotspec (fig_axes (snd (add_plot_new_ax s)))"
    unfolding s' by (rule add_plot_subplotspecs)
  have g: "gs s' = gs (snd (add_plot_new_ax s))"
    unfolding s' by (rule add_plot_gs)
  have layout: "gs s' = grid_for (Suc ?n)
      \<and> map subplotspec (fig_axes s') = map (\<lambda>k. \<lparr>spec_gs = gs s', num = k\<rparr>) [0 ..< Suc ?n]"
  proof (cases "length (plots s) + 1 \<le> ncols (gs s) * nrows (gs s)")
    case True
    then have "gs s = grid_for (Suc ?n)"
      using grid by (intro grid_for_reuse) (simp_all add: np)
    then show ?thesis
      using True by (simp add: c g add_plot_new_ax_reuse cells np new_axes_def)
  next
    case False
    then show ?thesis
      by (simp add: c g add_plot_new_ax_grow map_subplotspec_enumerate na new_axes_def)
  qed
  show ?thesis
    using layout by (simp add: laid_out_def p keys refs)
qed

lemma laid_out_add_plots:
  "laid_out names s \<Longrightarrow> distinct (names @ map fst calls) \<Longrightarrow>
     add_plots calls s = (Inr (), s') \<Longrightarrow> laid_out (names @ map fst calls) s'"
proof (induction calls arbitrary: names s)
  case Nil
  then show ?case by simp
next
  case (Cons c calls)
  obtain plot_name data paired type where c: "c = (plot_name, data, paired, type)"
    by (cases c) auto
  from Cons.prems(3) c obtain s1 where
    one: "add_plot plot_name data paired type s = (Inr (), s1)" and
    rest: "add_plots calls s1 = (Inr (), s')"
    by (auto split: prod.splits sum.splits)
  from Cons.prems(2) c have new: "plot_name \<notin> set names" by auto
  have inv1: "laid_out (names @ [plot_name]) s1"
    using Cons.prems(1) new one by (rule laid_out_add_plot)
  from Cons.prems(2) c have d: "distinct ((names @ [plot_name]) @ map fst calls)" by auto
  have "laid_out ((names @ [plot_name]) @ map fst calls) s'"
    using inv1 d rest by (rule Cons.IH)
  then show ?case by (simp add: c)
qed

lemma add_plots_returns:
  "list_all (\<lambda>(plot_name, data, paired, type). renderable paired data) calls \<Longrightarrow>
     fst (add_plots calls s) = Inr ()"
proof (induction calls arbitrary: s)
  case Nil
  then show ?case by simp
next
  case (Cons c calls)
  obtain plot_name data paired type where c: "c = (plot_name, data, paired, type)"
    by (cases c) auto
  from Cons.prems c have r: "renderable paired data"
    and rest: "list_all (\<lambda>(plot_name, data, paired, type). renderable paired data) calls"
    by simp_all
  show ?case
    by (simp add: c add_plot_returns [OF r] Cons.IH [OF rest])
qed

lemma neg_div_neg:
  fixes a c :: int
  assumes "0 < c"
  shows "- (- a div c) = (a + c - 1) div c"
proof (cases "a mod c = 0")
  case True
  then obtain q where q: "a = c * q" by auto
  have "(c * q + c - 1) div c = (c - 1 + q * c) div c" by (simp add: algebra_simps)
  also have "\<dots> = (c - 1) div c + q" using assms(1) by (subst div_mult_self1) simp_all
  also have "\<dots> = q" using assms(1) by (simp add: div_pos_pos_trivial)
  finally have "(a + c - 1) div c = q" using q by simp
  moreover have "- a div c = - q"
    using True assms(1) q by (simp add: zdiv_zminus1_eq_if)
  ultimately show ?thesis by simp
next
  case False
  let ?q = "a div c" and ?r = "a mod c"
  have "0 \<le> ?r" using assms(1) by (rule pos_mod_sign)
  with False have "0 < ?r" by linarith
  moreover have "?r < c" using assms(1) by (rule pos_mod_bound)
  ultimately have r: "0 < ?r" "?r < c" by simp_all
  have a: "a = ?r + ?q * c" by simp
  have "(a + c - 1) div c = ((?r - 1) + (?q + 1) * c) div c"
    by (subst a) (simp add: algebra_simps)
  also have "\<dots> = (?r - 1) div c + (?q + 1)"
    using assms(1) by (subst div_mult_self1) simp_all
  also have "\<dots> = ?q + 1" using r by (simp add: div_pos_pos_trivial)
  finally have "(a + c - 1) div c = ?q + 1" .
  moreover have "- a div c = - ?q - 1"
    using False assms(1) by (simp add: zdiv_zminus1_eq_if)
  ultimately show ?thesis by simp
qed

lemma ceiling_div_nat:
  assumes "0 < c"
  shows "\<lceil>real n / real c\<rceil> = int ((n + c - 1) div c)"
proof -
  have "\<lceil>real n / real c\<rceil> = \<lceil>(of_int (int n) :: real) / of_int (int c)\<rceil>" by simp
  also have "\<dots> = - (- int n div int c)" by (rule ceiling_divide_eq_div)
  also have "\<dots> = (int n + int c - 1) div int c"
    using assms by (intro neg_div_neg) simp
  also have "\<dots> = int ((n + c - 1) div c)"
    using assms by (simp add: zdiv_int)
  finally show ?thesis .
qed

lemma cells_distinct:
  assumes "0 < c"
  shows "distinct (map (\<lambda>k. (k div c, k mod c)) [0 ..< n :: nat])"
proof -
  have "inj_on (\<lambda>k. (k div c, k mod c)) (set [0 ..< n])"
  proof (rule inj_onI)
    fix x y assume "(x div c, x mod c) = (y div c, y mod c)"
    then have "x div c = y div c" and "x mod c = y mod c" by simp_all
    then have "x div c * c + x mod c = y div c * c + y mod c" by simp
    then show "x = y" by simp
  qed
  then show ?thesis by (simp add: distinct_map)
qed

section \<open>Grid layout after N plots\<close>

text \<open>
  C1: for every sequence of N add_plot calls, N at least 1, with pairwise distinct names on
  a new canvas (MAX_COL = 2), each call returning normally, the grid after the N-th call has
  cols = min(MAX_COL, N) and rows = ceiling(N / cols). (A call that raises ends the sequence;
  by \<open>add_plots_returns\<close> every sequence of calls whose tables are renderable returns
  normally.)
\<close>

theorem grid_after_add_plots:
  assumes "distinct (map fst calls)" and "calls \<noteq> []"
    and "add_plots calls MplCanvas_init = (Inr (), s)"
  shows "ncols (gs s) = min MAX_COL (length calls)
    \<and> int (nrows (gs s)) = \<lceil>real (length calls) / real (ncols (gs s))\<rceil>"
proof -
  have "laid_out ([] @ map fst calls) s"
    using laid_out_init _ assms(3) by (rule laid_out_add_plots) (simp add: assms(1))
  with assms(2) have g: "gs s = grid_for (length calls)" by (simp add: laid_out_def)
  from assms(2) have pos: "0 < min MAX_COL (length calls)" by (simp add: MAX_COL_def)
  show ?thesis
    by (simp add: g grid_for_def ceiling_div_nat [OF pos])
qed

theorem grid_after_add_plots_witness:
  "distinct (map fst
      [(''a'', [(''A'', [1, 2 :: int]), (''B'', [3, 4])], False, 0 :: int),
       (''b'', [(''A'', [1, 2]), (''B'', [3, 4])], True, 1),
       (''c'', [(''A'', [1, 2]), (''B'', [3, 4])], False, 0)])
   \<and> [(''a'', [(''A'', [1, 2 :: int]), (''B'', [3, 4])], False, 0 :: int),
       (''b'', [(''A'', [1, 2]), (''B'', [3, 4])], True, 1),
       (''c'', [(''A'', [1, 2]), (''B'', [3, 4])], False, 0)] \<noteq> []
   \<and> fst (add_plots
      [(''a'', [(''A'', [1, 2 :: int]), (''B'', [3, 4])], False, 0),
       (''b'', [(''A'', [1, 2]), (''B'', [3, 4])], True, 1),
       (''c'', [(''A'', [1, 2]), (''B'', [3, 4])], False, 0)] MplCanvas_init) = Inr ()
   \<and> ncols (gs (snd (add_plots
      [(''a'', [(''A'', [1, 2 :: int]), (''B'', [3, 4])], False, 0),
       (''b'', [(''A'', [1, 2]), (''B'', [3, 4])], True, 1),
       (''c'', [(''A'', [1, 2]), (''B'', [3, 4])], False, 0)] MplCanvas_init))) = 2
   \<and> nrows (gs (snd (add_plots
      [(''a'', [(''A'', [1, 2 :: int]), (''B'', [3, 4])], False, 0),
       (''b'', [(''A'', [1, 2]), (''B'', [3, 4])], True, 1),
       (''c'', [(''A'', [1, 2]), (''B'', [3, 4])], False, 0)] MplCanvas_init))) = 2"
proof -
  let ?calls = "[(''a'', [(''A'', [1, 2 :: int]), (''B'', [3, 4])], False, 0 :: int),
       (''b'', [(''A'', [1, 2]), (''B'', [3, 4])], True, 1),
       (''c'', [(''A'', [1, 2]), (''B'', [3, 4])], False, 0)]"
  have h1: "distinct (map fst ?calls)" by simp
  have h2: "?calls \<noteq> []" by simp
  have r: "fst (add_plots ?calls MplCanvas_init) = Inr ()" by code_simp
  then have h3: "add_plots ?calls MplCanvas_init = (Inr (), snd (add_plots ?calls MplCanvas_init))"
    by (metis prod.collapse)
  have c: "\<lceil>(3 :: real) / 2\<rceil> = 2" by (simp add: ceiling_eq_iff)
  note g = grid_after_add_plots [OF h1 h2 h3]
  from g have cols: "ncols (gs (snd (add_plots ?calls MplCanvas_init))) = 2"
    by (simp add: MAX_COL_def del: add_plots.simps)
  from g have "int (nrows (gs (snd (add_plots ?calls MplCanvas_init)))) = 2"
    by (simp add: cols c del: add_plots.simps)
  then have rows: "nrows (gs (snd (add_plots ?calls MplCanvas_init))) = 2" by linarith
  show ?thesis
    using h1 h2 r cols rows by (simp del: add_plots.simps)
qed

section \<open>Regions in row-major insertion order\<close>

text \<open>
  The claim C6 speaks of every add_plot return. After the calls "a", "a", "b", all of which
  return normally, there are two slots and three regions, and the regions 1 and 2 occupy the
  same cell (0, 1).
\<close>

theorem duplicate_names_overlap:
  "fst (add_plots
      [(''a'', [(''A'', [1, 2 :: int]), (''B'', [3, 4])], False, 0),
       (''a'', [(''A'', [1, 2]), (''B'', [3, 4])], False, 0),
       (''b'', [(''A'', [1, 2]), (''B'', [3, 4])], False, 0)] MplCanvas_init) = Inr ()
   \<and> map fst (plots (snd (add_plots
      [(''a'', [(''A'', [1, 2 :: int]), (''B'', [3, 4])], False, 0),
       (''a'', [(''A'', [1, 2]), (''B'', [3, 4])], False, 0),
       (''b'', [(''A'', [1, 2]), (''B'', [3, 4])], False, 0)] MplCanvas_init))) = [''a'', ''b'']
   \<and> map cell_of (fig_axes (snd (add_plots
      [(''a'', [(''A'', [1, 2 :: int]), (''B'', [3, 4])], False, 0),
       (''a'', [(''A'', [1, 2]), (''B'', [3, 4])], False, 0),
       (''b'', [(''A'', [1, 2]), (''B'', [3, 4])], False, 0)] MplCanvas_init)))
      = [(0, 0), (0, 1), (0, 1)]"
  by code_simp

text \<open>
  C6, amended: for every sequence of add_plot calls with pairwise distinct names on a new
  canvas, each call returning normally, after the last call (so after every call of such a
  sequence, growing or not) there is exactly one region per slot, the slot at insertion
  index i is bound to region i, every region lies in the current grid, region i occupies
  the cell (i div cols, i mod cols) for the current cols, no two regions occupy the same
  cell, and cols is at most MAX_COL.
\<close>

theorem regions_row_major:
  assumes "distinct (map fst calls)"
    and "add_plots calls MplCanvas_init = (Inr (), s)"
  shows "length (fig_axes s) = length calls
    \<and> map fst (plots s) = map fst calls
    \<and> map (\<lambda>p. holder_ax (snd p)) (plots s) = [0 ..< length calls]
    \<and> map (\<lambda>a. spec_gs (subplotspec a)) (fig_axes s) = replicate (length calls) (gs s)
    \<and> map cell_of (fig_axes s) =
        map (\<lambda>i. (i div ncols (gs s), i mod ncols (gs s))) [0 ..< length calls]
    \<and> distinct (map cell_of (fig_axes s))
    \<and> ncols (gs s) \<le> MAX_COL"
proof -
  let ?n = "length calls"
  have "laid_out ([] @ map fst calls) s"
    using laid_out_init _ assms(2) by (rule laid_out_add_plots) (simp add: assms(1))
  then have keys: "map fst (plots s) = map fst calls"
    and refs: "map (\<lambda>p. holder_ax (snd p)) (plots s) = [0 ..< ?n]"
    and specs: "map subplotspec (fig_axes s) = map (\<lambda>k. \<lparr>spec_gs = gs s, num = k\<rparr>) [0 ..< ?n]"
    and grid: "gs s = (if calls = [] then \<lparr>nrows = 1, ncols = 1\<rparr> else grid_for ?n)"
    by (simp_all add: laid_out_def)
  from specs have len: "length (fig_axes s) = ?n"
    by (metis length_map length_upt minus_nat.diff_0)
  have "map (\<lambda>a. spec_gs (subplotspec a)) (fig_axes s) = map spec_gs (map subplotspec (fig_axes s))"
    by simp
  also have "\<dots> = replicate ?n (gs s)"
    unfolding specs by (simp add: comp_def map_replicate_const)
  finally have grids: "map (\<lambda>a. spec_gs (subplotspec a)) (fig_axes s) = replicate ?n (gs s)" .
  have "map cell_of (fig_axes s) = map (\<lambda>ss. (spec_row ss, spec_col ss)) (map subplotspec (fig_axes s))"
    by (simp add: cell_of_def comp_def)
  also have "\<dots> = map (\<lambda>i. (i div ncols (gs s), i mod ncols (gs s))) [0 ..< ?n]"
    unfolding specs by (simp add: spec_row_def spec_col_def comp_def)
  finally have cells: "map cell_of (fig_axes s) =
      map (\<lambda>i. (i div ncols (gs s), i mod ncols (gs s))) [0 ..< ?n]" .
  have pos: "0 < ncols (gs s)" and cap: "ncols (gs s) \<le> MAX_COL"
    using grid by (auto simp: grid_for_def MAX_COL_def)
  have "distinct (map cell_of (fig_axes s))"
    unfolding cells using pos by (rule cells_distinct)
  with len keys refs grids cells cap show ?thesis by simp
qed

theorem regions_row_major_witness:
  "distinct (map fst
      [(''a'', [(''A'', [1, 2 :: int]), (''B'', [3, 4])], False, 0 :: int),
       (''b'', [(''A'', [1, 2]), (''B'', [3, 4])], True, 1),
       (''c'', [(''A'', [1, 2]), (''B'', [3, 4])], False, 0)])
   \<and> fst (add_plots
      [(''a'', [(''A'', [1, 2 :: int]), (''B'', [3, 4])], False, 0),
       (''b'', [(''A'', [1, 2]), (''B'', [3, 4])], True, 1),
       (''c'', [(''A'', [1, 2]), (''B'', [3, 4])], False, 0)] MplCanvas_init) = Inr ()
   \<and> length (fig_axes (snd (add_plots
      [(''a'', [(''A'', [1, 2 :: int]), (''B'', [3, 4])], False, 0),
       (''b'', [(''A'', [1, 2]), (''B'', [3, 4])], True, 1),
       (''c'', [(''A'', [1, 2]), (''B'', [3, 4])], False, 0)] MplCanvas_init))) = 3
   \<and> map fst (plots (snd (add_plots
      [(''a'', [(''A'', [1, 2 :: int]), (''B'', [3, 4])], False, 0),
       (''b'', [(''A'', [1, 2]), (''B'', [3, 4])], True, 1),
       (''c'', [(''A'', [1, 2]), (''B'', [3, 4])], False, 0)] MplCanvas_init))) = [''a'', ''b'', ''c'']
   \<and> map (\<lambda>p. holder_ax (snd p)) (plots (snd (add_plots
      [(''a'', [(''A'', [1, 2 :: int]), (''B'', [3, 4])], False, 0),
       (''b'', [(''A'', [1, 2]), (''B'', [3, 4])], True, 1),
       (''c'', [(''A'', [1, 2]), (''B'', [3, 4])], False, 0)] MplCanvas_init))) = [0, 1, 2]
   \<and> distinct (map cell_of (fig_axes (snd (add_plots
      [(''a'', [(''A'', [1, 2 :: int]), (''B'', [3, 4])], False, 0),
       (''b'', [(''A'', [1, 2]), (''B'', [3, 4])], True, 1),
       (''c'', [(''A'', [1, 2]), (''B'', [3, 4])], False, 0)] MplCanvas_init))))"
proof -
  let ?calls = "[(''a'', [(''A'', [1, 2 :: int]), (''B'', [3, 4])], False, 0 :: int),
       (''b'', [(''A'', [1, 2]), (''B'', [3, 4])], True, 1),
       (''c'', [(''A'', [1, 2]), (''B'', [3, 4])], False, 0)]"
  have h1: "distinct (map fst ?calls)" by simp
  have r: "fst (add_plots ?calls MplCanvas_init) = Inr ()" by code_simp
  then have h2: "add_plots ?calls MplCanvas_init = (Inr (), snd (add_plots ?calls MplCanvas_init))"
    by (metis prod.collapse)
  have u: "[0 ..< length ?calls] = [0, 1, 2]" by (simp add: upt_rec)
  have k: "map fst ?calls = [''a'', ''b'', ''c'']" by simp
  note g = regions_row_major [OF h1 h2]
  from g have "length (fig_axes (snd (add_plots ?calls MplCanvas_init))) = length ?calls"
    by blast
  then have a: "length (fig_axes (snd (add_plots ?calls MplCanvas_init))) = 3"
    by (simp del: add_plots.simps)
  from g have "map fst (plots (snd (add_plots ?calls MplCanvas_init))) = map fst ?calls"
    by blast
  then have b: "map fst (plots (snd (add_plots ?calls MplCanvas_init))) = [''a'', ''b'', ''c'']"
    by (simp only: k)
  from g have "map (\<lambda>p. holder_ax (snd p)) (plots (snd (add_plots ?calls MplCanvas_init))) = [0 ..< length ?calls]"
    by blast
  then have c: "map (\<lambda>p. holder_ax (snd p)) (plots (snd (add_plots ?calls MplCanvas_init))) = [0, 1, 2]"
    by (simp only: u)
  from g have d: "distinct (map cell_of (fig_axes (snd (add_plots ?calls MplCanvas_init))))"
    by blast
  show ?thesis
    using h1 r a b c d by (simp del: add_plots.simps)
qed

section \<open>Unpaired rendering\<close>

text \<open>
  C3: on a table of n columns, n at least 2, with pairwise distinct labels, and a style that
  is line (0) or scatter (1), \<open>__plot_unpaired\<close> returns normally and appends exactly n - 1
  series to the region, one per column after the first, in column order; each has the
  values of column 0 as X, the values of its own column as Y, and the label
  "x_name vs y_name".
\<close>

theorem plot_unpaired_series:
  assumes "2 \<le> length data" and "distinct (map fst data)" and "type = 0 \<or> type = 1"
  shows "plot_unpaired a data type =
           (Inr (), a\<lparr>artists := artists a @
              map (\<lambda>(y, yv). series_of type (snd (data ! 0)) yv (fst (data ! 0) @ '' vs '' @ y))
                (drop 1 data)\<rparr>)
         \<and> length (artists (snd (plot_unpaired a data type))) = length (artists a) + (length data - 1)"
proof -
  from assms(1) obtain c cs where data: "data = c # cs" by (cases data) auto
  have x: "df_getitem data (fst (data ! 0)) = Inr (snd (data ! 0))"
    using assms(1,2) by (intro df_getitem_column) auto
  have sub: "set (map fst cs) \<subseteq> fst ` set data" using data by auto
  have each: "\<And>p. p \<in> set cs \<Longrightarrow> map_of data (fst p) = Some (snd p)"
    using assms(2) data by (intro map_of_is_SomeI) auto
  have "map (\<lambda>y. series_of type (snd (data ! 0)) (the (map_of data y)) (fst (data ! 0) @ '' vs '' @ y)) (map fst cs)
      = map (\<lambda>(y, yv). series_of type (snd (data ! 0)) yv (fst (data ! 0) @ '' vs '' @ y)) cs"
    using each by (auto simp: case_prod_beta)
  then have "plot_unpaired_loop (map fst cs) (fst (data ! 0)) (snd (data ! 0)) data type a =
      (Inr (), a\<lparr>artists := artists a @
         map (\<lambda>(y, yv). series_of type (snd (data ! 0)) yv (fst (data ! 0) @ '' vs '' @ y)) cs\<rparr>)"
    using plot_unpaired_loop_draws [OF assms(3) sub] by simp
  then have "plot_unpaired a data type =
      (Inr (), a\<lparr>artists := artists a @
         map (\<lambda>(y, yv). series_of type (snd (data ! 0)) yv (fst (data ! 0) @ '' vs '' @ y))
           (drop 1 data)\<rparr>)"
    using x data by (simp add: plot_unpaired_def columns_getitem_def drop_Suc)
  then show ?thesis by simp
qed

theorem plot_unpaired_series_witness:
  "2 \<le> length [(''A'', [1, 2 :: int]), (''B'', [3, 4]), (''C'', [5, 6])]
   \<and> distinct (map fst [(''A'', [1, 2 :: int]), (''B'', [3, 4]), (''C'', [5, 6])])
   \<and> ((0 :: int) = 0 \<or> (0 :: int) = 1)
   \<and> plot_unpaired (new_axes \<lparr>spec_gs = \<lparr>nrows = 1, ncols = 1\<rparr>, num = 0\<rparr>)
        [(''A'', [1, 2 :: int]), (''B'', [3, 4]), (''C'', [5, 6])] 0
      = (Inr (), (new_axes \<lparr>spec_gs = \<lparr>nrows = 1, ncols = 1\<rparr>, num = 0\<rparr>)
           \<lparr>artists := [LinePlot [1, 2] [3, 4] ''A vs B'', LinePlot [1, 2] [5, 6] ''A vs C'']\<rparr>)"
proof -
  have h1: "2 \<le> length [(''A'', [1, 2 :: int]), (''B'', [3, 4]), (''C'', [5, 6])]" by simp
  have h2: "distinct (map fst [(''A'', [1, 2 :: int]), (''B'', [3, 4]), (''C'', [5, 6])])" by simp
  have h3: "(0 :: int) = 0 \<or> (0 :: int) = 1" by simp
  show ?thesis
    using h1 h2 h3
      plot_unpaired_series [OF h1 h2 h3, of "new_axes \<lparr>spec_gs = \<lparr>nrows = 1, ncols = 1\<rparr>, num = 0\<rparr>"]
    by (simp add: series_of_def new_axes_def)
qed

section \<open>Paired rendering\<close>

text \<open>
  On an even number of columns with pairwise distinct labels and a style that is line (0) or
  scatter (1), \<open>__plot_paired\<close> consumes the columns two at a time, in order, and appends
  one series per pair: X the pair's first column, Y its second, labelled "x_name vs y_name".
\<close>

lemma plot_paired_even:
  assumes "even (length data)" and "distinct (map fst data)" and "type = 0 \<or> type = 1"
  shows "plot_paired a data type =
     (Inr (), a\<lparr>artists := artists a @
        map (\<lambda>k. series_of type (snd (data ! (2 * k))) (snd (data ! Suc (2 * k)))
                   (fst (data ! (2 * k)) @ '' vs '' @ fst (data ! Suc (2 * k))))
          [0 ..< length data div 2]\<rparr>)"
proof -
  let ?pairs = "map (\<lambda>k. (fst (data ! (2 * k)), fst (data ! Suc (2 * k)))) [0 ..< length data div 2]"
  have inside: "list_all (\<lambda>(x, y). x \<in> fst ` set data \<and> y \<in> fst ` set data) ?pairs"
    using assms(1) by (auto simp: list_all_iff elim!: evenE)
  have col: "map_of data (fst (data ! i)) = Some (snd (data ! i))" if "i < length data" for i
    using assms(2) that by (intro map_of_is_SomeI) auto
  have "map (\<lambda>(x, y). series_of type (the (map_of data x)) (the (map_of data y)) (x @ '' vs '' @ y)) ?pairs
      = map (\<lambda>k. series_of type (snd (data ! (2 * k))) (snd (data ! Suc (2 * k)))
                   (fst (data ! (2 * k)) @ '' vs '' @ fst (data ! Suc (2 * k))))
          [0 ..< length data div 2]"
    using assms(1) by (auto simp: col elim!: evenE)
  then show ?thesis
    using plot_paired_loop_draws [OF assms(3) inside, of a]
    by (simp add: plot_paired_def detect_adjacent_pairs_even [OF assms(1)])
qed

lemma plot_paired_four_columns:
  "plot_paired (new_axes \<lparr>spec_gs = \<lparr>nrows = 1, ncols = 1\<rparr>, num = 0\<rparr>)
     [(''A'', [1, 2 :: int]), (''B'', [3, 4]), (''C'', [5, 6]), (''D'', [7, 8])] 0
   = (Inr (), (new_axes \<lparr>spec_gs = \<lparr>nrows = 1, ncols = 1\<rparr>, num = 0\<rparr>)
        \<lparr>artists := [LinePlot [1, 2] [3, 4] ''A vs B'', LinePlot [5, 6] [7, 8] ''C vs D'']\<rparr>)"
  by code_simp

text \<open>
  C2: the claim says that on an odd number of columns the trailing column is dropped and
  the render succeeds. On the columns A, B, C the comprehension of \<open>detect_adjacent_pairs\<close>
  runs over \<open>range(0, 3, 2)\<close>, which holds 0 and 2, and at 2 reads \<open>df.columns[3]\<close>:
  IndexError. \<open>__plot_paired\<close> draws nothing and \<open>add_plot\<close> raises.
\<close>

theorem paired_odd_columns_raises:
  "detect_adjacent_pairs [(''A'', [1, 2 :: int]), (''B'', [3, 4]), (''C'', [5, 6])] = Inl IndexError
   \<and> plot_paired (new_axes \<lparr>spec_gs = \<lparr>nrows = 1, ncols = 1\<rparr>, num = 0\<rparr>)
          [(''A'', [1, 2 :: int]), (''B'', [3, 4]), (''C'', [5, 6])] 0
       = (Inl IndexError, new_axes \<lparr>spec_gs = \<lparr>nrows = 1, ncols = 1\<rparr>, num = 0\<rparr>)
   \<and> fst (add_plot ''p'' [(''A'', [1, 2 :: int]), (''B'', [3, 4]), (''C'', [5, 6])] True 0
          MplCanvas_init) = Inl IndexError"
  by code_simp

section \<open>Styles other than line and scatter\<close>

text \<open>
  C10: for a style that is neither 0 nor 1, on a table on which the column iteration runs
  (an even number of columns in paired mode, at least one column in unpaired mode), the
  rendering function of either mode returns normally and leaves the region as it was, with
  no series added; \<open>add_plot\<close> returns normally, the new region holds no series and carries
  the standard formatting, and the slot is stored under its name.
\<close>

theorem other_type_draws_nothing:
  assumes "type \<noteq> 0" and "type \<noteq> 1" and "renderable paired data"
  shows "(if paired then plot_paired a data type else plot_unpaired a data type) = (Inr (), a)
    \<and> fst (add_plot plot_name data paired type s) = Inr ()
    \<and> map_of (plots (snd (add_plot plot_name data paired type s))) plot_name =
        Some \<lparr>holder_ax = length (fig_axes s), holder_data = data, holder_paired = paired,
              holder_type = type\<rparr>
    \<and> artists (fig_axes (snd (add_plot plot_name data paired type s)) ! length (fig_axes s)) = []
    \<and> title (fig_axes (snd (add_plot plot_name data paired type s)) ! length (fig_axes s)) = plot_name
    \<and> xlabel (fig_axes (snd (add_plot plot_name data paired type s)) ! length (fig_axes s)) = ''X-axis''
    \<and> ylabel (fig_axes (snd (add_plot plot_name data paired type s)) ! length (fig_axes s)) = ''Y-axis''
    \<and> legend (fig_axes (snd (add_plot plot_name data paired type s)) ! length (fig_axes s))
    \<and> grid (fig_axes (snd (add_plot plot_name data paired type s)) ! length (fig_axes s))"
proof -
  have render: "(if paired then plot_paired b data type else plot_unpaired b data type) = (Inr (), b)" for b
  proof (cases paired)
    case True
    with assms(3) have "even (length data)" by (simp add: renderable_def)
    then show ?thesis
      using True assms(1,2)
      by (simp add: plot_paired_def detect_adjacent_pairs_even plot_paired_loop_other_type)
  next
    case False
    with assms(3) obtain c cs where "data = c # cs" by (cases data) (auto simp: renderable_def)
    then show ?thesis
      using False assms(1,2)
      by (simp add: plot_unpaired_def columns_getitem_def df_getitem_def
          plot_unpaired_loop_other_type split: prod.splits)
  qed
  have len: "length (fig_axes s) < length (fig_axes (snd (add_plot_new_ax s)))"
    by (simp add: add_plot_new_ax_facts)
  show ?thesis
    using len
    by (simp add: render add_plot_returns [OF assms(3)] update_conv' format_plot_def
        add_plot_new_ax_facts)
qed

theorem other_type_draws_nothing_witness:
  "(2 :: int) \<noteq> 0 \<and> (2 :: int) \<noteq> 1
   \<and> renderable True [(''A'', [1, 2 :: int]), (''B'', [3, 4])]
   \<and> plot_paired (new_axes \<lparr>spec_gs = \<lparr>nrows = 1, ncols = 1\<rparr>, num = 0\<rparr>)
         [(''A'', [1, 2 :: int]), (''B'', [3, 4])] 2
       = (Inr (), new_axes \<lparr>spec_gs = \<lparr>nrows = 1, ncols = 1\<rparr>, num = 0\<rparr>)
   \<and> fst (add_plot ''p'' [(''A'', [1, 2 :: int]), (''B'', [3, 4])] True 2 MplCanvas_init) = Inr ()
   \<and> map_of (plots (snd (add_plot ''p'' [(''A'', [1, 2 :: int]), (''B'', [3, 4])] True 2 MplCanvas_init))) ''p''
       = Some \<lparr>holder_ax = 0, holder_data = [(''A'', [1, 2]), (''B'', [3, 4])], holder_paired = True,
               holder_type = 2\<rparr>
   \<and> artists (fig_axes (snd (add_plot ''p'' [(''A'', [1, 2 :: int]), (''B'', [3, 4])] True 2 MplCanvas_init)) ! 0) = []
   \<and> title (fig_axes (snd (add_plot ''p'' [(''A'', [1, 2 :: int]), (''B'', [3, 4])] True 2 MplCanvas_init)) ! 0) = ''p''"
proof -
  have h1: "(2 :: int) \<noteq> 0" by simp
  have h2: "(2 :: int) \<noteq> 1" by simp
  have h3: "renderable True [(''A'', [1, 2 :: int]), (''B'', [3, 4])]" by (simp add: renderable_def)
  have z: "length (fig_axes (MplCanvas_init :: int canvas)) = 0" by (simp add: MplCanvas_init_def)
  show ?thesis
    using h1 h2 h3
      other_type_draws_nothing [OF h1 h2 h3,
        of "new_axes \<lparr>spec_gs = \<lparr>nrows = 1, ncols = 1\<rparr>, num = 0\<rparr>" "''p''" "MplCanvas_init :: int canvas"]
    by (simp add: z)
qed

section \<open>Tables with fewer than two columns\<close>

text \<open>
  The claim C4 says that \<open>add_plot\<close> with a one-column table fails before any change. On a
  new canvas, \<open>add_plot("p1", table_with_1_column, False, 0)\<close> returns normally, with the
  slot stored and a region added. So does \<open>add_plot\<close> with a table of two columns and no
  rows.
\<close>

theorem add_plot_one_column_returns:
  "fst (add_plot ''p1'' [(''A'', [1, 2, 3 :: int])] False 0 MplCanvas_init) = Inr ()
   \<and> plots (snd (add_plot ''p1'' [(''A'', [1, 2, 3 :: int])] False 0 MplCanvas_init)) =
       [(''p1'', \<lparr>holder_ax = 0, holder_data = [(''A'', [1, 2, 3])], holder_paired = False,
                 holder_type = 0\<rparr>)]
   \<and> length (fig_axes (snd (add_plot ''p1'' [(''A'', [1, 2, 3 :: int])] False 0 MplCanvas_init))) = 1
   \<and> plots (MplCanvas_init :: int canvas) = []
   \<and> fig_axes (MplCanvas_init :: int canvas) = []
   \<and> fst (add_plot ''p1'' [(''A'', [] :: int list), (''B'', [])] False 0 MplCanvas_init) = Inr ()"
  by code_simp

text \<open>
  C4, amended: \<open>add_plot\<close> does not validate the table. In unpaired mode a table with
  exactly one column is accepted: the call returns normally, the new region holds no series
  and the slot is stored. In unpaired mode a table with no column raises IndexError (from
  \<open>data.columns[0]\<close>) after the new region has been added to the figure; the slot mapping
  is unchanged.
\<close>

theorem add_plot_without_validation:
  "(length data = 1 \<longrightarrow>
      fst (add_plot plot_name data False type s) = Inr ()
      \<and> map_of (plots (snd (add_plot plot_name data False type s))) plot_name =
          Some \<lparr>holder_ax = length (fig_axes s), holder_data = data, holder_paired = False,
                holder_type = type\<rparr>
      \<and> artists (fig_axes (snd (add_plot plot_name data False type s)) ! length (fig_axes s)) = []
      \<and> length (fig_axes (snd (add_plot plot_name data False type s))) = Suc (length (fig_axes s)))
   \<and> (data = [] \<longrightarrow>
      fst (add_plot plot_name data False type s) = Inl IndexError
      \<and> plots (snd (add_plot plot_name data False type s)) = plots s
      \<and> length (fig_axes (snd (add_plot plot_name data False type s))) = Suc (length (fig_axes s)))"
proof (intro conjI impI)
  assume one: "length data = 1"
  then obtain c where data: "data = [c]" by (cases data) auto
  have r: "renderable False data" using data by (simp add: renderable_def)
  have draw: "plot_unpaired b data type = (Inr (), b)" for b
    using data by (simp add: plot_unpaired_def columns_getitem_def df_getitem_def split: prod.splits)
  have len: "length (fig_axes s) < length (fig_axes (snd (add_plot_new_ax s)))"
    by (simp add: add_plot_new_ax_facts)
  show "fst (add_plot plot_name data False type s) = Inr ()"
    by (simp add: add_plot_returns [OF r])
  show "map_of (plots (snd (add_plot plot_name data False type s))) plot_name =
          Some \<lparr>holder_ax = length (fig_axes s), holder_data = data, holder_paired = False,
                holder_type = type\<rparr>"
    by (simp add: add_plot_returns [OF r] update_conv')
  show "artists (fig_axes (snd (add_plot plot_name data False type s)) ! length (fig_axes s)) = []"
    using len by (simp add: add_plot_returns [OF r] draw format_plot_def add_plot_new_ax_facts)
  show "length (fig_axes (snd (add_plot plot_name data False type s))) = Suc (length (fig_axes s))"
    by (simp add: add_plot_returns [OF r] add_plot_new_ax_facts)
next
  assume empty: "data = []"
  then have r: "\<not> renderable False data" by (simp add: renderable_def)
  show "fst (add_plot plot_name data False type s) = Inl IndexError"
    by (simp add: add_plot_raises [OF r])
  show "plots (snd (add_plot plot_name data False type s)) = plots s"
    by (simp add: add_plot_raises [OF r] add_plot_new_ax_facts)
  show "length (fig_axes (snd (add_plot plot_name data False type s))) = Suc (length (fig_axes s))"
    by (simp add: add_plot_raises [OF r] add_plot_new_ax_facts)
qed

theorem add_plot_without_validation_witness:
  "length [(''A'', [1, 2, 3 :: int])] = 1
   \<and> fst (add_plot ''p1'' [(''A'', [1, 2, 3 :: int])] False 0 MplCanvas_init) = Inr ()
   \<and> map_of (plots (snd (add_plot ''p1'' [(''A'', [1, 2, 3 :: int])] False 0 MplCanvas_init))) ''p1'' =
       Some \<lparr>holder_ax = 0, holder_data = [(''A'', [1, 2, 3])], holder_paired = False, holder_type = 0\<rparr>
   \<and> artists (fig_axes (snd (add_plot ''p1'' [(''A'', [1, 2, 3 :: int])] False 0 MplCanvas_init)) ! 0) = []
   \<and> ([] :: int table) = []
   \<and> fst (add_plot ''p1'' ([] :: int table) False 0 MplCanvas_init) = Inl IndexError
   \<and> plots (snd (add_plot ''p1'' ([] :: int table) False 0 MplCanvas_init)) = []
   \<and> length (fig_axes (snd (add_plot ''p1'' ([] :: int table) False 0 MplCanvas_init))) = 1"
proof -
  have h1: "length [(''A'', [1, 2, 3 :: int])] = 1" by simp
  have h2: "([] :: int table) = []" by simp
  have z: "length (fig_axes (MplCanvas_init :: int canvas)) = 0" "plots (MplCanvas_init :: int canvas) = []"
    by (simp_all add: MplCanvas_init_def)
  show ?thesis
    using h1 h2
      add_plot_without_validation [of "[(''A'', [1, 2, 3 :: int])]" "''p1''" 0 "MplCanvas_init :: int canvas"]
      add_plot_without_validation [of "[] :: int table" "''p1''" 0 "MplCanvas_init :: int canvas"]
    by (simp add: z)
qed

section \<open>Order of region allocation and slot storage\<close>

text \<open>
  The claim C7 says that no call that raises leaves a new or relaid-out region without its
  slot. After one plot "a", \<open>add_plot("b", table_with_3_columns, True, 0)\<close> raises
  IndexError, the grid has grown from 1 x 1 to 1 x 2 with two regions in it, and the only
  slot is "a". On a new canvas, \<open>add_plot("b", table_with_no_column, False, 0)\<close> raises
  IndexError and leaves one region and no slot.
\<close>

theorem add_plot_raise_leaves_region:
  "fst (add_plot ''b'' [(''A'', [1, 2 :: int]), (''B'', [3, 4]), (''C'', [5, 6])] True 0
         (snd (add_plot ''a'' [(''A'', [1, 2 :: int]), (''B'', [3, 4])] False 0 MplCanvas_init)))
     = Inl IndexError
   \<and> map fst (plots (snd (add_plot ''b'' [(''A'', [1, 2 :: int]), (''B'', [3, 4]), (''C'', [5, 6])] True 0
         (snd (add_plot ''a'' [(''A'', [1, 2 :: int]), (''B'', [3, 4])] False 0 MplCanvas_init)))))
     = [''a'']
   \<and> map subplotspec (fig_axes (snd (add_plot ''b'' [(''A'', [1, 2 :: int]), (''B'', [3, 4]), (''C'', [5, 6])] True 0
         (snd (add_plot ''a'' [(''A'', [1, 2 :: int]), (''B'', [3, 4])] False 0 MplCanvas_init)))))
     = [\<lparr>spec_gs = \<lparr>nrows = 1, ncols = 2\<rparr>, num = 0\<rparr>, \<lparr>spec_gs = \<lparr>nrows = 1, ncols = 2\<rparr>, num = 1\<rparr>]
   \<and> map subplotspec (fig_axes (snd (add_plot ''a'' [(''A'', [1, 2 :: int]), (''B'', [3, 4])] False 0 MplCanvas_init)))
     = [\<lparr>spec_gs = \<lparr>nrows = 1, ncols = 1\<rparr>, num = 0\<rparr>]
   \<and> fst (add_plot ''b'' ([] :: int table) False 0 MplCanvas_init) = Inl IndexError
   \<and> plots (snd (add_plot ''b'' ([] :: int table) False 0 MplCanvas_init)) = []
   \<and> map subplotspec (fig_axes (snd (add_plot ''b'' ([] :: int table) False 0 MplCanvas_init)))
     = [\<lparr>spec_gs = \<lparr>nrows = 1, ncols = 1\<rparr>, num = 0\<rparr>]"
  by code_simp

text \<open>
  C7, amended: every call of \<open>add_plot\<close> adds exactly one region to the figure, before
  it renders. A call that returns normally has also stored the slot, bound to that region,
  under its name; a call that raises leaves the slot mapping as it was.
\<close>

theorem add_plot_region_then_slot:
  "length (fig_axes (snd (add_plot plot_name data paired type s))) = Suc (length (fig_axes s))
   \<and> (if fst (add_plot plot_name data paired type s) = Inr ()
       then map_of (plots (snd (add_plot plot_name data paired type s))) plot_name =
              Some \<lparr>holder_ax = length (fig_axes s), holder_data = data, holder_paired = paired,
                    holder_type = type\<rparr>
       else plots (snd (add_plot plot_name data paired type s)) = plots s)"
proof (cases "renderable paired data")
  case True
  then show ?thesis
    by (simp add: add_plot_returns add_plot_new_ax_facts update_conv')
next
  case False
  then show ?thesis
    by (simp add: add_plot_raises add_plot_new_ax_facts)
qed

theorem add_plot_region_then_slot_witness:
  "length (fig_axes (snd (add_plot ''a'' [(''A'', [1, 2 :: int]), (''B'', [3, 4])] False 0 MplCanvas_init))) = 1
   \<and> fst (add_plot ''a'' [(''A'', [1, 2 :: int]), (''B'', [3, 4])] False 0 MplCanvas_init) = Inr ()
   \<and> map_of (plots (snd (add_plot ''a'' [(''A'', [1, 2 :: int]), (''B'', [3, 4])] False 0 MplCanvas_init))) ''a'' =
       Some \<lparr>holder_ax = 0, holder_data = [(''A'', [1, 2]), (''B'', [3, 4])], holder_paired = False,
             holder_type = 0\<rparr>
   \<and> length (fig_axes (snd (add_plot ''a'' ([] :: int table) False 0 MplCanvas_init))) = 1
   \<and> fst (add_plot ''a'' ([] :: int table) False 0 MplCanvas_init) = Inl IndexError
   \<and> plots (snd (add_plot ''a'' ([] :: int table) False 0 MplCanvas_init)) = []"
proof -
  have a: "fst (add_plot ''a'' [(''A'', [1, 2 :: int]), (''B'', [3, 4])] False 0 MplCanvas_init) = Inr ()"
    by code_simp
  have b: "fst (add_plot ''a'' ([] :: int table) False 0 MplCanvas_init) = Inl IndexError"
    by code_simp
  have z: "length (fig_axes (MplCanvas_init :: int canvas)) = 0" "plots (MplCanvas_init :: int canvas) = []"
    by (simp_all add: MplCanvas_init_def)
  show ?thesis
    using a b
      add_plot_region_then_slot [of "''a''" "[(''A'', [1, 2 :: int]), (''B'', [3, 4])]" False 0 "MplCanvas_init"]
      add_plot_region_then_slot [of "''a''" "[] :: int table" False 0 "MplCanvas_init"]
    by (simp add: z)
qed

section \<open>Adding under a name that exists\<close>

text \<open>
  The claim C8 says that the slot keeps its region unless the grid grows. After the plots
  "a", "b", "c" the grid is 2 x 2 and "a" is bound to region 0; a further
  \<open>add_plot("a", ...)\<close> returns normally, the grid is still 2 x 2, and "a" is bound to
  region 3.
\<close>

theorem duplicate_name_new_region:
  "fst (get_ax ''a'' (snd (add_plots
      [(''a'', [(''A'', [1, 2 :: int]), (''B'', [3, 4])], False, 0),
       (''b'', [(''A'', [1, 2]), (''B'', [3, 4])], False, 0),
       (''c'', [(''A'', [1, 2]), (''B'', [3, 4])], False, 0)] MplCanvas_init))) = Inr 0
   \<and> gs (snd (add_plots
      [(''a'', [(''A'', [1, 2 :: int]), (''B'', [3, 4])], False, 0),
       (''b'', [(''A'', [1, 2]), (''B'', [3, 4])], False, 0),
       (''c'', [(''A'', [1, 2]), (''B'', [3, 4])], False, 0)] MplCanvas_init)) = \<lparr>nrows = 2, ncols = 2\<rparr>
   \<and> fst (add_plots
      [(''a'', [(''A'', [1, 2 :: int]), (''B'', [3, 4])], False, 0),
       (''b'', [(''A'', [1, 2]), (''B'', [3, 4])], False, 0),
       (''c'', [(''A'', [1, 2]), (''B'', [3, 4])], False, 0),
       (''a'', [(''A'', [1, 2]), (''B'', [3, 4])], False, 0)] MplCanvas_init) = Inr ()
   \<and> gs (snd (add_plots
      [(''a'', [(''A'', [1, 2 :: int]), (''B'', [3, 4])], False, 0),
       (''b'', [(''A'', [1, 2]), (''B'', [3, 4])], False, 0),
       (''c'', [(''A'', [1, 2]), (''B'', [3, 4])], False, 0),
       (''a'', [(''A'', [1, 2]), (''B'', [3, 4])], False, 0)] MplCanvas_init)) = \<lparr>nrows = 2, ncols = 2\<rparr>
   \<and> fst (get_ax ''a'' (snd (add_plots
      [(''a'', [(''A'', [1, 2 :: int]), (''B'', [3, 4])], False, 0),
       (''b'', [(''A'', [1, 2]), (''B'', [3, 4])], False, 0),
       (''c'', [(''A'', [1, 2]), (''B'', [3, 4])], False, 0),
       (''a'', [(''A'', [1, 2]), (''B'', [3, 4])], False, 0)] MplCanvas_init))) = Inr 3"
  by code_simp

text \<open>
  C8, amended: for every \<open>add_plot\<close> call that returns normally and whose name is already
  a key of \<open>plots\<close>, the keys of \<open>plots\<close> (so the slot count) are unchanged, the figure
  gains one region, and the slot is overwritten with the new data, pairing mode and style
  and bound to that new region.
\<close>

theorem add_plot_existing_name:
  assumes "plot_name \<in> fst ` set (plots s)"
    and "fst (add_plot plot_name data paired type s) = Inr ()"
  shows "map fst (plots (snd (add_plot plot_name data paired type s))) = map fst (plots s)
    \<and> map_of (plots (snd (add_plot plot_name data paired type s))) plot_name =
        Some \<lparr>holder_ax = length (fig_axes s), holder_data = data, holder_paired = paired,
              holder_type = type\<rparr>
    \<and> length (fig_axes (snd (add_plot plot_name data paired type s))) = Suc (length (fig_axes s))"
proof -
  have r: "renderable paired data"
  proof (rule ccontr)
    assume "\<not> renderable paired data"
    then have "fst (add_plot plot_name data paired type s) = Inl IndexError"
      by (simp add: add_plot_raises)
    with assms(2) show False by simp
  qed
  show ?thesis
    using assms(1)
    by (simp add: add_plot_returns [OF r] add_plot_new_ax_facts update_conv' update_keys)
qed

theorem add_plot_existing_name_witness:
  "''a'' \<in> fst ` set (plots (snd (add_plot ''a'' [(''A'', [1, 2 :: int]), (''B'', [3, 4])] False 0 MplCanvas_init)))
   \<and> fst (add_plot ''a'' [(''C'', [5, 6 :: int]), (''D'', [7, 8])] True 1
        (snd (add_plot ''a'' [(''A'', [1, 2 :: int]), (''B'', [3, 4])] False 0 MplCanvas_init))) = Inr ()
   \<and> map fst (plots (snd (add_plot ''a'' [(''C'', [5, 6 :: int]), (''D'', [7, 8])] True 1
        (snd (add_plot ''a'' [(''A'', [1, 2 :: int]), (''B'', [3, 4])] False 0 MplCanvas_init))))) = [''a'']
   \<and> map_of (plots (snd (add_plot ''a'' [(''C'', [5, 6 :: int]), (''D'', [7, 8])] True 1
        (snd (add_plot ''a'' [(''A'', [1, 2 :: int]), (''B'', [3, 4])] False 0 MplCanvas_init))))) ''a''
      = Some \<lparr>holder_ax = 1, holder_data = [(''C'', [5, 6]), (''D'', [7, 8])], holder_paired = True,
              holder_type = 1\<rparr>
   \<and> length (fig_axes (snd (add_plot ''a'' [(''C'', [5, 6 :: int]), (''D'', [7, 8])] True 1
        (snd (add_plot ''a'' [(''A'', [1, 2 :: int]), (''B'', [3, 4])] False 0 MplCanvas_init))))) = 2"
proof -
  let ?s = "snd (add_plot ''a'' [(''A'', [1, 2 :: int]), (''B'', [3, 4])] False 0 MplCanvas_init)"
  have h1: "''a'' \<in> fst ` set (plots ?s)" by code_simp
  have h2: "fst (add_plot ''a'' [(''C'', [5, 6 :: int]), (''D'', [7, 8])] True 1 ?s) = Inr ()"
    by code_simp
  have k: "map fst (plots ?s) = [''a'']" by code_simp
  have n: "length (fig_axes ?s) = 1" by code_simp
  show ?thesis
    using h1 h2 add_plot_existing_name [OF h1 h2] by (simp add: k n)
qed

section \<open>update_plot\<close>

text \<open>
  For a slot stored with \<open>paired = True\<close>, \<open>update_plot\<close> clears the region, draws the
  pairs of the new table in the stored style, formats the region and redraws it alone. For
  a slot stored with \<open>paired = False\<close> it clears the region and raises AttributeError.
\<close>

lemma update_plot_paired_slot:
  assumes "map_of (plots s) plot_name = Some h" and "holder_paired h"
    and "holder_ax h < length (fig_axes s)"
    and "even (length data)" and "distinct (map fst data)"
    and "holder_type h = 0 \<or> holder_type h = 1"
  shows "update_plot plot_name data s =
     (Inr (),
      s\<lparr>fig_axes := (fig_axes s)[holder_ax h :=
           format_plot
             ((cla (fig_axes s ! holder_ax h))
                \<lparr>artists :=
                   map (\<lambda>k. series_of (holder_type h) (snd (data ! (2 * k))) (snd (data ! Suc (2 * k)))
                              (fst (data ! (2 * k)) @ '' vs '' @ fst (data ! Suc (2 * k))))
                     [0 ..< length data div 2]\<rparr>)
             plot_name],
         drawn := drawn s @ [AxesDraw (holder_ax h)]\<rparr>)"
  using assms(1,2,3)
  by (simp add: update_plot_def on_axes_eq plot_paired_even [OF assms(4,5,6)] cla_def new_axes_def)

lemma update_plot_unpaired_slot:
  "map_of (plots s) plot_name = Some h \<Longrightarrow> \<not> holder_paired h \<Longrightarrow>
     update_plot plot_name data s =
       (Inl AttributeError, s\<lparr>fig_axes := (fig_axes s)[holder_ax h := cla (fig_axes s ! holder_ax h)]\<rparr>)"
  by (simp add: update_plot_def)

text \<open>
  C5: the claim says that \<open>update_plot\<close> re-renders unpaired slots too. After
  \<open>add_plot("p", table, False, 0)\<close>, the call \<open>update_plot("p", table)\<close> raises
  AttributeError and leaves the region of "p" cleared: no series, no title, no redraw.
\<close>

theorem update_plot_unpaired_raises:
  "update_plot ''p'' [(''A'', [1, 2 :: int]), (''B'', [3, 4])]
     (snd (add_plot ''p'' [(''A'', [1, 2 :: int]), (''B'', [3, 4])] False 0 MplCanvas_init))
   = (Inl AttributeError,
      \<lparr>fig_axes = [new_axes \<lparr>spec_gs = \<lparr>nrows = 1, ncols = 1\<rparr>, num = 0\<rparr>],
       plots = [(''p'', \<lparr>holder_ax = 0, holder_data = [(''A'', [1, 2]), (''B'', [3, 4])],
                        holder_paired = False, holder_type = 0\<rparr>)],
       gs = \<lparr>nrows = 1, ncols = 1\<rparr>, drawn = [TightLayout, CanvasDraw]\<rparr>)"
  by code_simp

section \<open>Unknown names\<close>

text \<open>
  C9: for a name that is not a key of \<open>plots\<close>, \<open>get_ax\<close> (the specification's get_region) and
  \<open>update_plot\<close> both raise the dictionary's not-found error, KeyError, and the canvas they
  leave is the canvas they were given.
\<close>

theorem unknown_name_raises_KeyError:
  "name \<notin> fst ` set (plots s) \<Longrightarrow>
     get_ax name s = (Inl KeyError, s) \<and> update_plot name data s = (Inl KeyError, s)"
proof -
  assume "name \<notin> fst ` set (plots s)"
  then have "map_of (plots s) name = None"
    by (simp add: map_of_eq_None_iff)
  then show ?thesis
    by (simp add: get_ax_def update_plot_def)
qed

theorem unknown_name_raises_KeyError_witness:
  "''missing'' \<notin> fst ` set (plots (snd (add_plot ''p'' [(''A'', [1, 2 :: int]), (''B'', [3, 4])] False 0 MplCanvas_init)))
   \<and> get_ax ''missing'' (snd (add_plot ''p'' [(''A'', [1, 2 :: int]), (''B'', [3, 4])] False 0 MplCanvas_init))
       = (Inl KeyError, snd (add_plot ''p'' [(''A'', [1, 2 :: int]), (''B'', [3, 4])] False 0 MplCanvas_init))
   \<and> update_plot ''missing'' [(''A'', [1, 2 :: int]), (''B'', [3, 4])]
        (snd (add_plot ''p'' [(''A'', [1, 2 :: int]), (''B'', [3, 4])] False 0 MplCanvas_init))
       = (Inl KeyError, snd (add_plot ''p'' [(''A'', [1, 2 :: int]), (''B'', [3, 4])] False 0 MplCanvas_init))"
proof -
  have h: "''missing'' \<notin> fst ` set (plots (snd (add_plot ''p'' [(''A'', [1, 2 :: int]), (''B'', [3, 4])] False 0 MplCanvas_init)))"
    by code_simp
  show ?thesis using h unknown_name_raises_KeyError [OF h] by simp
qed

end
